theory Spec2Isabelle
  imports Complex_Main "HOL-Library.Multiset" "HOL-Library.Sublist"
begin

section \<open>The dose tracker page: persistence codec, timer and intervals\<close>

text \<open>
  This theory embeds the pure part of \<^verbatim>\<open>src/pages/Index.tsx\<close>: the CSV codec
  (\<^verbatim>\<open>parseCSV\<close>, \<^verbatim>\<open>entriesToCSV\<close>, \<^verbatim>\<open>loadEntries\<close>), the duration formatting
  (\<^verbatim>\<open>formatElapsed\<close>, \<^verbatim>\<open>intervalSincePrev\<close>), the derived values
  (\<^verbatim>\<open>lastDoseDT\<close>, \<^verbatim>\<open>elapsed\<close>, \<^verbatim>\<open>isWarning\<close>) and the mutations of the log
  (\<^verbatim>\<open>addDose\<close>, \<^verbatim>\<open>deleteSingleDose\<close>, \<^verbatim>\<open>deleteAllDoses\<close>).

  The source calls into the JavaScript runtime and the luxon library. Their operations are
  modelled as follows.
  \<^item> Strings are lists of 8-bit characters. The characters the source inspects (comma,
    line feed, carriage return, the letters of the header) are ASCII; \<open>trim\<close> removes the
    ASCII white space, the non-ASCII white space of JavaScript is not represented.
  \<^item> Numbers are \<open>NaN\<close>, the two infinities, or a finite value, taken as the exact real
    number the double denotes; arithmetic on finite values is exact and the two zeros are
    one value.
  \<^item> A luxon \<open>DateTime\<close> is invalid or an instant in epoch milliseconds; a luxon
    \<open>Duration\<close> is invalid or a length in milliseconds (hours, minutes and seconds have
    fixed lengths in luxon).
  \<^item> The conversions between text and numbers and the ISO parser are parameters, collected
    in the record \<open>platform\<close>, so that the theorems hold for every behaviour of these
    library functions that satisfies the stated hypotheses. One concrete platform,
    \<open>js\<close>, is defined for evaluating the program on concrete inputs.
\<close>

subsection \<open>Strings\<close>

abbreviation LF :: char where "LF \<equiv> CHR 0x0A"
abbreviation CR :: char where "CR \<equiv> CHR 0x0D"

definition is_space :: "char \<Rightarrow> bool" where
  "is_space c \<longleftrightarrow>
     c = CHR 0x09 \<or> c = LF \<or> c = CHR 0x0B \<or> c = CHR 0x0C \<or> c = CR \<or> c = CHR '' ''"

text \<open>\<^verbatim>\<open>String.prototype.trim\<close>.\<close>

definition trim :: "string \<Rightarrow> string" where
  "trim s = rev (dropWhile is_space (rev (dropWhile is_space s)))"

text \<open>\<^verbatim>\<open>String.prototype.toLowerCase\<close> on the ASCII letters.\<close>

definition lower_char :: "char \<Rightarrow> char" where
  "lower_char c =
     (let n = (of_char c :: nat) in if 65 \<le> n \<and> n \<le> 90 then char_of (n + 32) else c)"

definition toLowerCase :: "string \<Rightarrow> string" where
  "toLowerCase s = map lower_char s"

definition startsWith :: "string \<Rightarrow> string \<Rightarrow> bool" where
  "startsWith s p \<longleftrightarrow> take (length p) s = p"

text \<open>
  \<^verbatim>\<open>s.split(/\r?\n/)\<close>: a line feed, or a carriage return directly followed by a line
  feed, separates two parts; the result always has at least one part.
\<close>

fun split_lines :: "string \<Rightarrow> string list" where
  "split_lines [] = [[]]"
| "split_lines [c] = (if c = LF then [[], []] else [[c]])"
| "split_lines (c # d # cs) =
     (if c = LF then [] # split_lines (d # cs)
      else if c = CR \<and> d = LF then [] # split_lines cs
      else (case split_lines (d # cs) of
              [] \<Rightarrow> [[c]]
            | l # ls \<Rightarrow> (c # l) # ls))"

text \<open>\<^verbatim>\<open>line.split(",")\<close>: every comma separates two parts.\<close>

fun split_comma :: "string \<Rightarrow> string list" where
  "split_comma [] = [[]]"
| "split_comma (c # cs) =
     (if c = CHR '','' then [] # split_comma cs
      else (case split_comma cs of
              [] \<Rightarrow> [[c]]
            | l # ls \<Rightarrow> (c # l) # ls))"

text \<open>\<^verbatim>\<open>lines.join(sep)\<close>.\<close>

fun join :: "string \<Rightarrow> string list \<Rightarrow> string" where
  "join sep [] = []"
| "join sep [x] = x"
| "join sep (x # y # ys) = x @ sep @ join sep (y # ys)"

text \<open>
  Reading an array element: \<^verbatim>\<open>a[i]\<close> is \<^verbatim>\<open>undefined\<close> (here \<open>None\<close>) out of range.
\<close>

definition at_index :: "'a list \<Rightarrow> nat \<Rightarrow> 'a option" where
  "at_index xs i = (if i < length xs then Some (xs ! i) else None)"

text \<open>\<^verbatim>\<open>!s\<close> for a string or \<^verbatim>\<open>undefined\<close>: true for \<^verbatim>\<open>undefined\<close> and for the empty string.\<close>

definition falsy :: "string option \<Rightarrow> bool" where
  "falsy v \<longleftrightarrow> (case v of None \<Rightarrow> True | Some s \<Rightarrow> s = [])"

subsection \<open>Numbers\<close>

datatype jsnum = NaN | PosInf | NegInf | Finite real

text \<open>\<^verbatim>\<open>Number.isFinite\<close>.\<close>

fun Number_isFinite :: "jsnum \<Rightarrow> bool" where
  "Number_isFinite (Finite r) = True"
| "Number_isFinite x = False"

text \<open>The subtraction \<^verbatim>\<open>a - b\<close>.\<close>

fun js_minus :: "jsnum \<Rightarrow> jsnum \<Rightarrow> jsnum" where
  "js_minus (Finite a) (Finite b) = Finite (a - b)"
| "js_minus NaN y = NaN"
| "js_minus x NaN = NaN"
| "js_minus PosInf PosInf = NaN"
| "js_minus NegInf NegInf = NaN"
| "js_minus PosInf y = PosInf"
| "js_minus NegInf y = NegInf"
| "js_minus (Finite a) PosInf = NegInf"
| "js_minus (Finite a) NegInf = PosInf"

text \<open>The comparison \<^verbatim>\<open>a < b\<close>: false as soon as one side is \<open>NaN\<close>.\<close>

fun js_less :: "jsnum \<Rightarrow> jsnum \<Rightarrow> bool" where
  "js_less (Finite a) (Finite b) \<longleftrightarrow> a < b"
| "js_less NaN y \<longleftrightarrow> False"
| "js_less x NaN \<longleftrightarrow> False"
| "js_less NegInf NegInf \<longleftrightarrow> False"
| "js_less NegInf y \<longleftrightarrow> True"
| "js_less x PosInf \<longleftrightarrow> (x \<noteq> PosInf)"
| "js_less x NegInf \<longleftrightarrow> False"
| "js_less PosInf y \<longleftrightarrow> False"

text \<open>\<^verbatim>\<open>Math.floor\<close>.\<close>

fun Math_floor :: "jsnum \<Rightarrow> jsnum" where
  "Math_floor (Finite r) = Finite (of_int \<lfloor>r\<rfloor>)"
| "Math_floor x = x"

text \<open>Decimal digits of a natural number and of an integer, as JavaScript prints them.\<close>

definition digit_char :: "nat \<Rightarrow> char" where
  "digit_char d = ''0123456789'' ! d"

fun digits_of :: "nat \<Rightarrow> string" where
  "digits_of n = (if n < 10 then [digit_char n] else digits_of (n div 10) @ [digit_char (n mod 10)])"

definition show_int :: "int \<Rightarrow> string" where
  "show_int k = (if k < 0 then CHR ''-'' # digits_of (nat (- k)) else digits_of (nat k))"

subsection \<open>The library operations taken as parameters\<close>

datatype DateTime = ValidDT int | InvalidDT

text \<open>
  \<^item> \<open>toNumber\<close> is \<^verbatim>\<open>Number(s)\<close> on a string;
  \<^item> \<open>numberToString\<close> is the conversion of a finite number to text where the model below
    does not fix it (values that are not integers, and integers beyond \<open>2\<^sup>5\<^sup>3\<close>);
  \<^item> \<open>toFixed1\<close> is \<^verbatim>\<open>x.toFixed(1)\<close>;
  \<^item> \<open>fromISO\<close> is \<^verbatim>\<open>DateTime.fromISO\<close>, which returns an invalid \<open>DateTime\<close> for
    text it cannot read (luxon's default, it does not throw).
\<close>

record platform =
  toNumber :: "string \<Rightarrow> jsnum"
  numberToString :: "real \<Rightarrow> string"
  toFixed1 :: "jsnum \<Rightarrow> string"
  fromISO :: "string \<Rightarrow> DateTime"

text \<open>
  The conversion of a number to text in a template literal, \<^verbatim>\<open>`${n}`\<close>: an integer of
  magnitude up to \<open>2\<^sup>5\<^sup>3\<close> is printed as its decimal digits, with no fractional part.
  (Up to there every integer is a double and its shortest text is its exact digits;
  beyond, JavaScript prints the shortest digits that read back, which is left to the
  platform.)
\<close>

definition js_toString :: "platform \<Rightarrow> jsnum \<Rightarrow> string" where
  "js_toString P x =
     (case x of
        NaN \<Rightarrow> ''NaN''
      | PosInf \<Rightarrow> ''Infinity''
      | NegInf \<Rightarrow> ''-Infinity''
      | Finite r \<Rightarrow>
          if r = of_int \<lfloor>r\<rfloor> \<and> \<bar>r\<bar> \<le> 2 ^ 53 then show_int \<lfloor>r\<rfloor> else numberToString P r)"

subsection \<open>luxon: instants and durations\<close>

datatype Duration = ValidDur real | InvalidDur

datatype error = TypeError | InvalidArgumentError

text \<open>\<^verbatim>\<open>dt.toMillis()\<close>: \<open>NaN\<close> for an invalid \<open>DateTime\<close>.\<close>

fun toMillis :: "DateTime \<Rightarrow> jsnum" where
  "toMillis (ValidDT ms) = Finite (of_int ms)"
| "toMillis InvalidDT = NaN"

text \<open>
  \<^verbatim>\<open>a.diff(b, units)\<close> for units among hours, minutes and seconds: the difference of the
  two instants; invalid when one of them is.
\<close>

fun diff :: "DateTime \<Rightarrow> DateTime \<Rightarrow> Duration" where
  "diff (ValidDT a) (ValidDT b) = ValidDur (of_int (a - b))"
| "diff x y = InvalidDur"

text \<open>\<^verbatim>\<open>d.shiftTo("hours", "minutes", "seconds")\<close> redistributes the same length.\<close>

definition shiftTo :: "Duration \<Rightarrow> Duration" where
  "shiftTo d = d"

datatype unit = Hours | Minutes | Seconds

fun unit_millis :: "unit \<Rightarrow> real" where
  "unit_millis Hours = 3600000"
| "unit_millis Minutes = 60000"
| "unit_millis Seconds = 1000"

text \<open>\<^verbatim>\<open>d.as(unit)\<close>: \<open>NaN\<close> for an invalid duration.\<close>

fun dur_as :: "unit \<Rightarrow> Duration \<Rightarrow> jsnum" where
  "dur_as u (ValidDur x) = Finite (x / unit_millis u)"
| "dur_as u InvalidDur = NaN"

text \<open>
  \<^verbatim>\<open>d.minus({ hours: h, minutes: m })\<close>: an invalid duration is returned as it is; otherwise
  luxon builds a duration from the object and throws on a unit value that is \<open>NaN\<close>
  (the model raises the same error for the infinities, which no call of the source passes).
\<close>

fun dur_minus :: "Duration \<Rightarrow> jsnum \<Rightarrow> jsnum \<Rightarrow> error + Duration" where
  "dur_minus InvalidDur h m = Inr InvalidDur"
| "dur_minus (ValidDur x) (Finite h) (Finite m) =
     Inr (ValidDur (x - h * unit_millis Hours - m * unit_millis Minutes))"
| "dur_minus (ValidDur x) h m = Inl InvalidArgumentError"

subsection \<open>The program\<close>

text \<open>\<^verbatim>\<open>type DoseEntry = { tsISO: string; amount: number }\<close>\<close>

record DoseEntry =
  tsISO :: string
  amount :: jsnum

definition CSV_HEADER :: string where
  "CSV_HEADER = ''timestamp,amount''"

definition RED_THRESHOLD_MIN :: real where
  "RED_THRESHOLD_MIN = 90"

text \<open>
  \<^verbatim>\<open>entries.sort(cmp)\<close>: a stable sort; an element \<open>x\<close> goes behind \<open>y\<close> when
  \<^verbatim>\<open>cmp(x, y) > 0\<close>, and a comparator result \<open>NaN\<close> counts as zero. With a consistent
  comparator every stable sort returns the list computed here. ECMAScript leaves the
  order to the implementation when the comparator is not consistent (here: when a
  timestamp is invalid); the insertion below then moves an element only past elements
  it compares greater than, so a list whose neighbours all compare as zero stays as it
  is.
\<close>

fun insert_by :: "('a \<Rightarrow> 'a \<Rightarrow> jsnum) \<Rightarrow> 'a \<Rightarrow> 'a list \<Rightarrow> 'a list" where
  "insert_by cmp x [] = [x]"
| "insert_by cmp x (y # ys) =
     (if js_less (Finite 0) (cmp x y) then y # insert_by cmp x ys else x # y # ys)"

definition js_sort :: "('a \<Rightarrow> 'a \<Rightarrow> jsnum) \<Rightarrow> 'a list \<Rightarrow> 'a list" where
  "js_sort cmp xs = foldr (insert_by cmp) xs []"

text \<open>The comparator of \<^verbatim>\<open>parseCSV\<close>: \<^verbatim>\<open>fromISO(b.tsISO).toMillis() - fromISO(a.tsISO).toMillis()\<close>.\<close>

definition by_instant_desc :: "platform \<Rightarrow> DoseEntry \<Rightarrow> DoseEntry \<Rightarrow> jsnum" where
  "by_instant_desc P a b =
     js_minus (toMillis (fromISO P (tsISO b))) (toMillis (fromISO P (tsISO a)))"

text \<open>The first statement of \<^verbatim>\<open>parseCSV\<close>: the non-empty lines of the trimmed text.\<close>

definition csv_lines :: "string \<Rightarrow> string list" where
  "csv_lines csv = filter (\<lambda>l. l \<noteq> []) (split_lines (trim csv))"

text \<open>
  The body of the loop of \<^verbatim>\<open>parseCSV\<close> on one line, with the array \<^verbatim>\<open>entries\<close> passed
  through. A method call on \<^verbatim>\<open>undefined\<close> raises \<open>TypeError\<close>.
\<close>

definition row_step :: "platform \<Rightarrow> string \<Rightarrow> DoseEntry list \<Rightarrow> error + DoseEntry list" where
  "row_step P line es =
     (let parts = split_comma line;
          ts = at_index parts 0;
          amt = at_index parts 1
      in if falsy ts \<or> falsy amt then Inr es
         else let amnt = (case amt of None \<Rightarrow> NaN | Some a \<Rightarrow> toNumber P a)
              in if Number_isFinite amnt
                 then (case ts of
                         None \<Rightarrow> Inl TypeError
                       | Some t \<Rightarrow> Inr (es @ [\<lparr>tsISO = trim t, amount = amnt\<rparr>]))
                 else Inr es)"

fun parse_rows :: "platform \<Rightarrow> string list \<Rightarrow> DoseEntry list \<Rightarrow> error + DoseEntry list" where
  "parse_rows P [] es = Inr es"
| "parse_rows P (line # rows) es =
     (case row_step P line es of
        Inl e \<Rightarrow> Inl e
      | Inr es' \<Rightarrow> parse_rows P rows es')"

definition parseCSV :: "platform \<Rightarrow> string \<Rightarrow> error + DoseEntry list" where
  "parseCSV P csv =
     (let lines = csv_lines csv
      in if length lines = 0 then Inr []
         else (case at_index lines 0 of
                 None \<Rightarrow> Inl TypeError
               | Some first \<Rightarrow>
                   let hasHeader = startsWith (toLowerCase first) ''timestamp,'';
                       rows = (if hasHeader then drop 1 lines else lines)
                   in (case parse_rows P rows [] of
                         Inl e \<Rightarrow> Inl e
                       | Inr es \<Rightarrow> Inr (js_sort (by_instant_desc P) es))))"

text \<open>The line of one record, \<^verbatim>\<open>`${e.tsISO},${e.amount}`\<close>, and \<^verbatim>\<open>entriesToCSV\<close>.\<close>

definition csv_line :: "platform \<Rightarrow> DoseEntry \<Rightarrow> string" where
  "csv_line P e = tsISO e @ '','' @ js_toString P (amount e)"

definition entriesToCSV :: "platform \<Rightarrow> DoseEntry list \<Rightarrow> string" where
  "entriesToCSV P es = join [LF] (CSV_HEADER # map (csv_line P) es)"

text \<open>
  \<^verbatim>\<open>loadEntries\<close>: the argument is what \<^verbatim>\<open>localStorage.getItem(CSV_KEY)\<close> returned
  (\<open>None\<close> for \<^verbatim>\<open>null\<close>). The result says which way the function returned.
\<close>

datatype load_path = NoData | Parsed | Caught

definition loadEntries_path :: "platform \<Rightarrow> string option \<Rightarrow> load_path \<times> DoseEntry list" where
  "loadEntries_path P stored =
     (if falsy stored then (NoData, [])
      else (case stored of
              None \<Rightarrow> (NoData, [])
            | Some csv \<Rightarrow>
                (case parseCSV P csv of
                   Inr es \<Rightarrow> (Parsed, es)
                 | Inl e \<Rightarrow> (Caught, []))))"

definition loadEntries :: "platform \<Rightarrow> string option \<Rightarrow> DoseEntry list" where
  "loadEntries P stored = snd (loadEntries_path P stored)"

text \<open>\<^verbatim>\<open>formatElapsed\<close> and its local function \<^verbatim>\<open>pad\<close>.\<close>

definition pad :: "platform \<Rightarrow> jsnum \<Rightarrow> string" where
  "pad P n = (if js_less n (Finite 10) then ''0'' @ js_toString P n else js_toString P n)"

definition formatElapsed :: "platform \<Rightarrow> Duration \<Rightarrow> error + string" where
  "formatElapsed P d =
     (let hh = Math_floor (dur_as Hours d)
      in case dur_minus d hh (Finite 0) of
           Inl e \<Rightarrow> Inl e
         | Inr d1 \<Rightarrow>
             let mm = Math_floor (dur_as Minutes d1)
             in (case dur_minus d hh mm of
                   Inl e \<Rightarrow> Inl e
                 | Inr d2 \<Rightarrow>
                     let ss = Math_floor (dur_as Seconds d2)
                     in Inr (pad P hh @ '':'' @ pad P mm @ '':'' @ pad P ss)))"

text \<open>
  The state of the component that the modelled functions read and write: the log, the
  slider value, the double-click guard and the storage slot \<^verbatim>\<open>doseTracker.csv\<close>.
\<close>

record app =
  entries :: "DoseEntry list"
  doseAmt :: jsnum
  isAddingDose :: bool
  storage :: "string option"

definition lastDoseDT :: "platform \<Rightarrow> DoseEntry list \<Rightarrow> DateTime option" where
  "lastDoseDT P es = (if length es > 0 then Some (fromISO P (tsISO (es ! 0))) else None)"

text \<open>\<^verbatim>\<open>elapsed\<close>; \<open>now\<close> is the instant \<^verbatim>\<open>nowParis()\<close> returns, in epoch milliseconds.\<close>

definition elapsed :: "platform \<Rightarrow> int \<Rightarrow> DoseEntry list \<Rightarrow> Duration option" where
  "elapsed P now es =
     (case lastDoseDT P es of
        None \<Rightarrow> None
      | Some dt \<Rightarrow> Some (shiftTo (diff (ValidDT now) dt)))"

definition isWarning :: "Duration option \<Rightarrow> bool" where
  "isWarning el =
     (case el of
        None \<Rightarrow> False
      | Some d \<Rightarrow> js_less (dur_as Minutes d) (Finite RED_THRESHOLD_MIN))"

definition saveEntries :: "platform \<Rightarrow> DoseEntry list \<Rightarrow> app \<Rightarrow> app" where
  "saveEntries P es st = st\<lparr>storage := Some (entriesToCSV P es)\<rparr>"

text \<open>
  \<^verbatim>\<open>addDose\<close>; \<open>nowISO\<close> is the text \<^verbatim>\<open>toISOParis(nowParis())\<close> returns. The guard is
  released by a timer one second later, which is a separate event.
\<close>

definition addDose :: "platform \<Rightarrow> string \<Rightarrow> app \<Rightarrow> app" where
  "addDose P nowISO st =
     (if isAddingDose st then st
      else let newEntry = \<lparr>tsISO = nowISO, amount = toNumber P (toFixed1 P (doseAmt st))\<rparr>;
               next = newEntry # entries st
           in saveEntries P next (st\<lparr>isAddingDose := True, entries := next\<rparr>))"

definition deleteSingleDose :: "platform \<Rightarrow> DoseEntry \<Rightarrow> app \<Rightarrow> app" where
  "deleteSingleDose P entryToDelete st =
     (let updated = filter (\<lambda>e. tsISO e \<noteq> tsISO entryToDelete) (entries st)
      in saveEntries P updated (st\<lparr>entries := updated\<rparr>))"

definition deleteAllDoses :: "app \<Rightarrow> app" where
  "deleteAllDoses st = st\<lparr>entries := [], storage := None\<rparr>"



subsection \<open>A concrete platform for evaluation\<close>

text \<open>
  The definitions of this subsection are not part of the repository. They give the library
  parameters one concrete behaviour, written after the ECMAScript and luxon documentation
  for the inputs the theory evaluates: decimal number literals, and ISO timestamps in the
  extended format with an explicit offset, which is what \<^verbatim>\<open>toISO\<close> writes. They are used
  at concrete inputs only; no theorem with a universally quantified platform depends on them.
\<close>

definition is_digit :: "char \<Rightarrow> bool" where
  "is_digit c \<longleftrightarrow> (let n = (of_char c :: nat) in 48 \<le> n \<and> n \<le> 57)"

definition digit_val :: "char \<Rightarrow> nat" where
  "digit_val c = (of_char c :: nat) - 48"

fun num_of :: "string \<Rightarrow> nat \<Rightarrow> nat" where
  "num_of [] acc = acc"
| "num_of (c # cs) acc = num_of cs (10 * acc + digit_val c)"

definition parse_digits :: "string \<Rightarrow> nat option" where
  "parse_digits s = (if s \<noteq> [] \<and> list_all is_digit s then Some (num_of s 0) else None)"

text \<open>The exponent part of a decimal literal: empty, or \<open>e\<close> with a signed integer.\<close>

definition exponent_part :: "string \<Rightarrow> int option" where
  "exponent_part s =
     (if s = [] then Some 0
      else if hd s = CHR ''e'' \<or> hd s = CHR ''E'' then
        (let r = tl s;
             neg = (r \<noteq> [] \<and> hd r = CHR ''-'');
             ds = (if r \<noteq> [] \<and> (hd r = CHR ''-'' \<or> hd r = CHR ''+'') then tl r else r)
         in case parse_digits ds of
              None \<Rightarrow> None
            | Some n \<Rightarrow> Some (if neg then - int n else int n))
      else None)"

definition scale10 :: "real \<Rightarrow> int \<Rightarrow> real" where
  "scale10 x e = (if 0 \<le> e then x * 10 ^ nat e else x / 10 ^ nat (- e))"

text \<open>
  \<^verbatim>\<open>Number(s)\<close> on decimal literals: white space around the literal is skipped, the empty
  text is zero, and text that is no literal is \<open>NaN\<close>. (Hexadecimal, octal and binary
  literals are not covered; the value is exact, not rounded to a double.)
\<close>

definition Number_dec :: "string \<Rightarrow> jsnum" where
  "Number_dec s =
     (let t = trim s
      in if t = [] then Finite 0
         else let neg = (hd t = CHR ''-'');
                  body = (if hd t = CHR ''-'' \<or> hd t = CHR ''+'' then tl t else t)
              in if body = ''Infinity'' then (if neg then NegInf else PosInf)
                 else let ip = takeWhile is_digit body;
                          r1 = dropWhile is_digit body;
                          dot = (r1 \<noteq> [] \<and> hd r1 = CHR ''.'');
                          fp = (if dot then takeWhile is_digit (tl r1) else []);
                          r2 = (if dot then dropWhile is_digit (tl r1) else r1)
                      in if ip = [] \<and> fp = [] then NaN
                         else (case exponent_part r2 of
                                 None \<Rightarrow> NaN
                               | Some e \<Rightarrow>
                                   let v = scale10 (real (num_of ip 0)
                                             + real (num_of fp 0) / 10 ^ length fp) e
                                   in Finite (if neg then - v else v)))"

text \<open>
  The text of a finite number that is not an integer: sign, integer part, point and the
  digits of the fraction (at most 17), for values that are such a decimal.
\<close>

fun frac_digits :: "nat \<Rightarrow> real \<Rightarrow> string" where
  "frac_digits 0 f = []"
| "frac_digits (Suc n) f =
     (if f = 0 then []
      else digit_char (nat \<lfloor>10 * f\<rfloor>) # frac_digits n (10 * f - of_int \<lfloor>10 * f\<rfloor>))"

definition numberToString_dec :: "real \<Rightarrow> string" where
  "numberToString_dec r =
     (if r < 0 then [CHR ''-''] else []) @ show_int \<lfloor>\<bar>r\<bar>\<rfloor> @ [CHR ''.'']
       @ frac_digits 17 (\<bar>r\<bar> - of_int \<lfloor>\<bar>r\<bar>\<rfloor>)"

text \<open>
  \<^verbatim>\<open>x.toFixed(1)\<close>: the nearest number of tenths, the larger one on a tie, with exactly
  one digit after the point.
\<close>

definition toFixed1_dec :: "jsnum \<Rightarrow> string" where
  "toFixed1_dec x =
     (case x of
        NaN \<Rightarrow> ''NaN''
      | PosInf \<Rightarrow> ''Infinity''
      | NegInf \<Rightarrow> ''-Infinity''
      | Finite r \<Rightarrow>
          (let n = \<lfloor>10 * \<bar>r\<bar> + 1 / 2\<rfloor>
           in (if r < 0 then [CHR ''-''] else []) @ show_int (n div 10) @ [CHR ''.'']
                @ [digit_char (nat (n mod 10))]))"

text \<open>Days from 1970-01-01 to a date of the proleptic Gregorian calendar.\<close>

definition days_from_civil :: "int \<Rightarrow> int \<Rightarrow> int \<Rightarrow> int" where
  "days_from_civil y m d =
     (let y' = (if m \<le> 2 then y - 1 else y);
          era = y' div 400;
          yoe = y' - era * 400;
          mp = (m + 9) mod 12;
          doy = (153 * mp + 2) div 5 + d - 1;
          doe = yoe * 365 + yoe div 4 - yoe div 100 + doy
      in era * 146097 + doe - 719468)"

definition days_in_month :: "int \<Rightarrow> int \<Rightarrow> int" where
  "days_in_month y m =
     (if m = 2 then (if y mod 4 = 0 \<and> (y mod 100 \<noteq> 0 \<or> y mod 400 = 0) then 29 else 28)
      else if m = 4 \<or> m = 6 \<or> m = 9 \<or> m = 11 then 30 else 31)"

text \<open>The offset in minutes: \<open>Z\<close>, or a sign, two digits, a colon and two digits.\<close>

definition parse_zone :: "string \<Rightarrow> int option" where
  "parse_zone z =
     (if z = ''Z'' then Some 0
      else if length z = 6 \<and> z ! 3 = CHR '':'' \<and> (z ! 0 = CHR ''+'' \<or> z ! 0 = CHR ''-'') then
        (case (parse_digits (take 2 (drop 1 z)), parse_digits (drop 4 z)) of
           (Some h, Some m) \<Rightarrow>
             Some ((if z ! 0 = CHR ''-'' then - 1 else 1) * (int h * 60 + int m))
         | _ \<Rightarrow> None)
      else None)"

text \<open>
  What follows the seconds: an optional fraction, introduced by a point or a comma, of
  which the first three digits are the milliseconds, and then the offset.
\<close>

definition parse_frac_zone :: "string \<Rightarrow> (int \<times> int) option" where
  "parse_frac_zone r =
     (if r \<noteq> [] \<and> (hd r = CHR ''.'' \<or> hd r = CHR '','') then
        (let ds = takeWhile is_digit (tl r);
             z = dropWhile is_digit (tl r)
         in case (parse_digits (take 3 (ds @ ''00'')), parse_zone z) of
              (Some f, Some off) \<Rightarrow> Some (int f, off)
            | _ \<Rightarrow> None)
      else (case parse_zone r of None \<Rightarrow> None | Some off \<Rightarrow> Some (0, off)))"

text \<open>
  \<^verbatim>\<open>DateTime.fromISO\<close> on \<^verbatim>\<open>YYYY-MM-DDTHH:MM:SS\<close>, an optional fraction and an offset.
  Every other text is invalid here; luxon reads more forms (dates alone, week dates, times
  without an offset, which it places in the zone of the device).
\<close>

definition fromISO_ext :: "string \<Rightarrow> DateTime" where
  "fromISO_ext s =
     (if length s < 20 \<or> s ! 4 \<noteq> CHR ''-'' \<or> s ! 7 \<noteq> CHR ''-'' \<or> s ! 10 \<noteq> CHR ''T''
         \<or> s ! 13 \<noteq> CHR '':'' \<or> s ! 16 \<noteq> CHR '':'' then InvalidDT
      else (case (parse_digits (take 4 s), parse_digits (take 2 (drop 5 s)),
                  parse_digits (take 2 (drop 8 s)), parse_digits (take 2 (drop 11 s)),
                  parse_digits (take 2 (drop 14 s)), parse_digits (take 2 (drop 17 s)),
                  parse_frac_zone (drop 19 s)) of
              (Some y, Some mo, Some d, Some h, Some mi, Some sec, Some (f, off)) \<Rightarrow>
                if 1 \<le> mo \<and> mo \<le> 12 \<and> 1 \<le> d \<and> int d \<le> days_in_month (int y) (int mo)
                   \<and> h \<le> 23 \<and> mi \<le> 59 \<and> sec \<le> 59
                then ValidDT (days_from_civil (int y) (int mo) (int d) * 86400000
                        + int h * 3600000 + (int mi - off) * 60000 + int sec * 1000 + f)
                else InvalidDT
            | _ \<Rightarrow> InvalidDT))"

definition js :: platform where
  "js = \<lparr>toNumber = Number_dec, numberToString = numberToString_dec,
          toFixed1 = toFixed1_dec, fromISO = fromISO_ext\<rparr>"

subsection \<open>Notions of the specification\<close>

text \<open>
  The log is sorted descending by parsed instant: of two records with valid timestamps,
  the one that comes first is not the earlier one. A record whose timestamp does not parse
  has no instant and is not constrained.
\<close>

definition not_earlier :: "platform \<Rightarrow> DoseEntry \<Rightarrow> DoseEntry \<Rightarrow> bool" where
  "not_earlier P a b =
     (case (fromISO P (tsISO a), fromISO P (tsISO b)) of
        (ValidDT x, ValidDT y) \<Rightarrow> y \<le> x
      | _ \<Rightarrow> True)"

definition sorted_desc :: "platform \<Rightarrow> DoseEntry list \<Rightarrow> bool" where
  "sorted_desc P es = sorted_wrt (not_earlier P) es"

definition parseable :: "platform \<Rightarrow> DoseEntry \<Rightarrow> bool" where
  "parseable P e \<longleftrightarrow> fromISO P (tsISO e) \<noteq> InvalidDT"

text \<open>
  The two fields of a line: the timestamp field is the text before the first comma, the
  amount field the text after the first comma up to the next comma or the end of the
  line; a line without a comma has no amount field.
\<close>

definition field_ts :: "string \<Rightarrow> string" where
  "field_ts line = takeWhile (\<lambda>c. c \<noteq> CHR '','') line"

definition field_amt :: "string \<Rightarrow> string option" where
  "field_amt line =
     (if CHR '','' \<in> set line
      then Some (takeWhile (\<lambda>c. c \<noteq> CHR '','') (drop 1 (dropWhile (\<lambda>c. c \<noteq> CHR '','') line)))
      else None)"

text \<open>
  A line is kept when both fields are present and not empty and the amount field reads as
  a finite number; the record of a kept line.
\<close>

definition kept :: "platform \<Rightarrow> string \<Rightarrow> bool" where
  "kept P line \<longleftrightarrow>
     field_ts line \<noteq> [] \<and>
     (case field_amt line of
        None \<Rightarrow> False
      | Some a \<Rightarrow> a \<noteq> [] \<and> Number_isFinite (toNumber P a))"

definition record_of :: "platform \<Rightarrow> string \<Rightarrow> DoseEntry" where
  "record_of P line =
     \<lparr>tsISO = trim (field_ts line),
      amount = (case field_amt line of None \<Rightarrow> NaN | Some a \<Rightarrow> toNumber P a)\<rparr>"

text \<open>The data rows of a text: its non-empty lines, without the header line if it has one.\<close>

definition csv_rows :: "string \<Rightarrow> string list" where
  "csv_rows csv =
     (case csv_lines csv of
        [] \<Rightarrow> []
      | first # rest \<Rightarrow>
          if startsWith (toLowerCase first) ''timestamp,'' then rest else first # rest)"

text \<open>A whole number written with at least two digits, padded with a zero on the left.\<close>

definition two_digits :: "int \<Rightarrow> string" where
  "two_digits k = replicate (2 - length (show_int k)) (CHR ''0'') @ show_int k"

text \<open>
  \<open>HH:MM:SS\<close> of a length in milliseconds: the whole hours, the whole minutes within the
  hour and the whole seconds within the minute.
\<close>

definition hhmmss :: "real \<Rightarrow> string" where
  "hhmmss x =
     two_digits \<lfloor>x / 3600000\<rfloor> @ '':'' @ two_digits (\<lfloor>x / 60000\<rfloor> mod 60) @ '':''
       @ two_digits (\<lfloor>x / 1000\<rfloor> mod 60)"

text \<open>The text of an amount field that a number can be written as: no comma, no white space.\<close>

definition plain_text :: "string \<Rightarrow> bool" where
  "plain_text s \<longleftrightarrow> s \<noteq> [] \<and> list_all (\<lambda>c. c \<noteq> CHR '','' \<and> \<not> is_space c) s"

text \<open>
  A timestamp text that survives the codec: not empty, no white space around it, and no
  comma, line feed or carriage return in it.
\<close>

definition clean_timestamp :: "string \<Rightarrow> bool" where
  "clean_timestamp ts \<longleftrightarrow>
     ts \<noteq> [] \<and> trim ts = ts \<and> list_all (\<lambda>c. c \<noteq> CHR '','' \<and> c \<noteq> LF \<and> c \<noteq> CR) ts"

text \<open>
  The text written for a number is plain and \<^verbatim>\<open>Number\<close> reads it back as the same
  number, which is what ECMAScript specifies for the finite numbers.
\<close>

definition reads_back :: "platform \<Rightarrow> jsnum \<Rightarrow> bool" where
  "reads_back P a \<longleftrightarrow>
     plain_text (js_toString P a) \<and> toNumber P (js_toString P a) = a"

section \<open>Properties\<close>

subsection \<open>Digits and numbers\<close>

declare digits_of.simps [simp del]

lemma digits_of_small: "n < 10 \<Longrightarrow> digits_of n = [digit_char n]"
  by (subst digits_of.simps) simp

lemma digits_of_large: "10 \<le> n \<Longrightarrow> digits_of n = digits_of (n div 10) @ [digit_char (n mod 10)]"
  by (subst digits_of.simps) simp

lemma length_digits_of_pos: "0 < length (digits_of n)"
  by (subst digits_of.simps) simp

lemma length_digits_of_large: "10 \<le> n \<Longrightarrow> 2 \<le> length (digits_of n)"
  using length_digits_of_pos [of "n div 10"] by (simp add: digits_of_large Suc_le_eq)

lemma js_toString_int:
  "\<bar>k\<bar> \<le> 2 ^ 53 \<Longrightarrow> js_toString P (Finite (of_int k)) = show_int k"
proof -
  assume "\<bar>k\<bar> \<le> 2 ^ 53"
  then have "\<bar>real_of_int k\<bar> \<le> 2 ^ 53"
    by (metis of_int_abs of_int_le_numeral_power_cancel_iff)
  then show ?thesis by (simp add: js_toString_def)
qed

lemma pad_two_digits:
  assumes "0 \<le> k" "k \<le> 2 ^ 53"
  shows "pad P (Finite (of_int k)) = two_digits k"
proof (cases "k < 10")
  case True
  with assms have "digits_of (nat k) = [digit_char (nat k)]" by (simp add: digits_of_small)
  with True assms show ?thesis
    by (simp add: pad_def js_toString_int two_digits_def show_int_def)
next
  case False
  with assms have "2 \<le> length (digits_of (nat k))" by (simp add: length_digits_of_large)
  with False assms show ?thesis
    by (simp add: pad_def js_toString_int two_digits_def show_int_def)
qed

text \<open>The whole minutes left after the whole hours, and the whole seconds left after both.\<close>

lemma floor_minutes_in_hour:
  "\<lfloor>(x - real_of_int \<lfloor>x / 3600000\<rfloor> * 3600000) / 60000\<rfloor> = \<lfloor>x / 60000\<rfloor> mod 60"
proof -
  have h: "\<lfloor>x / 3600000\<rfloor> = \<lfloor>x / 60000\<rfloor> div 60"
    using floor_divide_real_eq_div [of 60 "x / 60000"] by simp
  have "(x - real_of_int \<lfloor>x / 3600000\<rfloor> * 3600000) / 60000
        = x / 60000 - real_of_int (\<lfloor>x / 3600000\<rfloor> * 60)"
    by (simp add: field_simps)
  then have "\<lfloor>(x - real_of_int \<lfloor>x / 3600000\<rfloor> * 3600000) / 60000\<rfloor>
        = \<lfloor>x / 60000\<rfloor> - \<lfloor>x / 3600000\<rfloor> * 60"
    by (simp only: floor_diff_of_int)
  with h show ?thesis by (simp add: minus_div_mult_eq_mod [symmetric])
qed

lemma floor_seconds_in_minute:
  "\<lfloor>(x - real_of_int \<lfloor>x / 3600000\<rfloor> * 3600000
        - real_of_int (\<lfloor>x / 60000\<rfloor> mod 60) * 60000) / 1000\<rfloor>
     = \<lfloor>x / 1000\<rfloor> mod 60"
proof -
  have h: "\<lfloor>x / 3600000\<rfloor> = \<lfloor>x / 60000\<rfloor> div 60"
    using floor_divide_real_eq_div [of 60 "x / 60000"] by simp
  have m: "\<lfloor>x / 60000\<rfloor> = \<lfloor>x / 1000\<rfloor> div 60"
    using floor_divide_real_eq_div [of 60 "x / 1000"] by simp
  have "\<lfloor>x / 3600000\<rfloor> * 3600000 + (\<lfloor>x / 60000\<rfloor> mod 60) * 60000 = \<lfloor>x / 60000\<rfloor> * 60000"
    unfolding h by (simp add: algebra_simps minus_mult_div_eq_mod [symmetric])
  then have "real_of_int \<lfloor>x / 3600000\<rfloor> * 3600000 + real_of_int (\<lfloor>x / 60000\<rfloor> mod 60) * 60000
      = real_of_int \<lfloor>x / 60000\<rfloor> * 60000"
    by (metis (no_types) of_int_add of_int_mult of_int_numeral)
  then have "(x - real_of_int \<lfloor>x / 3600000\<rfloor> * 3600000
                - real_of_int (\<lfloor>x / 60000\<rfloor> mod 60) * 60000) / 1000
      = x / 1000 - real_of_int (\<lfloor>x / 60000\<rfloor> * 60)"
    by (simp add: field_simps)
  then have "\<lfloor>(x - real_of_int \<lfloor>x / 3600000\<rfloor> * 3600000
                - real_of_int (\<lfloor>x / 60000\<rfloor> mod 60) * 60000) / 1000\<rfloor>
      = \<lfloor>x / 1000\<rfloor> - \<lfloor>x / 60000\<rfloor> * 60"
    by (simp only: floor_diff_of_int)
  with m show ?thesis by (simp add: minus_div_mult_eq_mod [symmetric])
qed

subsection \<open>The warning state\<close>

text \<open>
  C2. For a present elapsed duration \<open>isWarning\<close> holds exactly when the elapsed time in
  minutes is below 90: it holds at 89 minutes and not at 90 minutes. Without a prior dose
  (no elapsed duration, as for the empty log) it does not hold. The length \<open>x\<close> is in
  milliseconds.
\<close>

theorem isWarning_iff_under_90_minutes:
  "(isWarning (Some (ValidDur x)) \<longleftrightarrow> x / 60000 < 90)
   \<and> isWarning (Some (ValidDur (89 * 60000)))
   \<and> \<not> isWarning (Some (ValidDur (90 * 60000)))
   \<and> \<not> isWarning None
   \<and> \<not> isWarning (elapsed P now [])
   \<and> \<not> isWarning (Some InvalidDur)"
  by (simp add: isWarning_def RED_THRESHOLD_MIN_def elapsed_def lastDoseDT_def)

subsection \<open>The timer text\<close>

text \<open>
  C8. A non-negative duration is rendered as \<open>HH:MM:SS\<close>, each part padded with a zero to
  two digits, where the hours are all the whole hours of the duration, not taken modulo
  24. The bound on \<open>x\<close> (milliseconds) keeps the whole hours within \<open>2\<^sup>5\<^sup>3\<close>, the
  integers JavaScript prints digit for digit; every difference of two instants is far
  below it.
\<close>

theorem formatElapsed_hhmmss:
  assumes "0 \<le> x" and "x \<le> 3600000 * 2 ^ 53"
  shows "formatElapsed P (ValidDur x) = Inr (hhmmss x)"
proof -
  let ?h = "\<lfloor>x / 3600000\<rfloor>"
  let ?m = "\<lfloor>x / 60000\<rfloor> mod 60"
  let ?s = "\<lfloor>x / 1000\<rfloor> mod 60"
  from assms have h0: "0 \<le> ?h" by simp
  from assms have "x / 3600000 \<le> 2 ^ 53" by (simp add: field_simps)
  then have h1: "?h \<le> 2 ^ 53"
    by (metis floor_mono floor_numeral_power)
  have ph: "pad P (Finite (of_int ?h)) = two_digits ?h"
    using h0 h1 by (rule pad_two_digits)
  have pm: "pad P (Finite (of_int ?m)) = two_digits ?m"
    by (rule pad_two_digits) simp_all
  have ps: "pad P (Finite (of_int ?s)) = two_digits ?s"
    by (rule pad_two_digits) simp_all
  show ?thesis
    by (simp add: formatElapsed_def Let_def hhmmss_def floor_minutes_in_hour
        floor_seconds_in_minute ph pm ps)
qed

text \<open>25 hours, 3 minutes and 9 seconds are 90189000 milliseconds.\<close>

theorem formatElapsed_hhmmss_witness:
  "(0::real) \<le> 90189000 \<and> (90189000::real) \<le> 3600000 * 2 ^ 53
   \<and> formatElapsed js (ValidDur 90189000) = Inr ''25:03:09''"
proof -
  have a: "(0::real) \<le> 90189000" by simp
  have b: "(90189000::real) \<le> 3600000 * 2 ^ 53" by simp
  have c: "hhmmss 90189000 = ''25:03:09''" by code_simp
  from formatElapsed_hhmmss [OF a b, of js] a b c show ?thesis by simp
qed

lemma formatElapsed_invalid: "formatElapsed P InvalidDur = Inr ''NaN:NaN:NaN''"
  by (simp add: formatElapsed_def pad_def js_toString_def)

subsection \<open>The elapsed time\<close>

lemma elapsed_Nil: "elapsed P now [] = None"
  by (simp add: elapsed_def lastDoseDT_def)

lemma elapsed_Cons: "elapsed P now (e # es) = Some (diff (ValidDT now) (fromISO P (tsISO e)))"
  by (simp add: elapsed_def lastDoseDT_def shiftTo_def)

text \<open>
  C4, as amended. \<open>elapsed\<close> is absent exactly for the empty log. Otherwise it is the
  difference between the current instant and the timestamp of the first record, as it is:
  for a valid timestamp \<open>t\<close> it is \<open>now - t\<close> milliseconds, which is non-negative exactly
  when \<open>t\<close> is not later than \<open>now\<close>. Nothing is clamped.
\<close>

theorem elapsed_absent_iff_empty_unclamped:
  "(elapsed P now es = None \<longleftrightarrow> es = [])
   \<and> (es \<noteq> [] \<longrightarrow> elapsed P now es = Some (diff (ValidDT now) (fromISO P (tsISO (hd es)))))
   \<and> (es \<noteq> [] \<and> fromISO P (tsISO (hd es)) = ValidDT t \<longrightarrow>
        elapsed P now es = Some (ValidDur (of_int (now - t)))
        \<and> ((0::real) \<le> of_int (now - t) \<longleftrightarrow> t \<le> now))"
  by (cases es) (simp_all add: elapsed_Nil elapsed_Cons)

text \<open>A dose logged at 14:05, read 90 minutes later.\<close>

theorem elapsed_absent_iff_empty_unclamped_witness:
  "[\<lparr>tsISO = ''2024-03-02T14:05:00+01:00'', amount = Finite 1\<rparr>] \<noteq> []
   \<and> fromISO js (tsISO (hd [\<lparr>tsISO = ''2024-03-02T14:05:00+01:00'', amount = Finite 1\<rparr>]))
       = ValidDT 1709384700000
   \<and> elapsed js 1709390100000 [\<lparr>tsISO = ''2024-03-02T14:05:00+01:00'', amount = Finite 1\<rparr>]
       = Some (ValidDur 5400000)"
proof -
  have p: "fromISO js (tsISO (hd [\<lparr>tsISO = ''2024-03-02T14:05:00+01:00'', amount = Finite 1\<rparr>]))
       = ValidDT 1709384700000"
    by code_simp
  from elapsed_absent_iff_empty_unclamped
    [of js 1709390100000 "[\<lparr>tsISO = ''2024-03-02T14:05:00+01:00'', amount = Finite 1\<rparr>]"
        1709384700000] p
  show ?thesis by simp
qed

text \<open>
  The claim as stated fails: with the clock at the epoch and a record one second later,
  the elapsed time is minus one second, not zero.
\<close>

theorem elapsed_negative_counterexample:
  "elapsed js 0 [\<lparr>tsISO = ''1970-01-01T00:00:01Z'', amount = Finite 1\<rparr>]
     = Some (ValidDur (- 1000))
   \<and> (- 1000 :: real) < 0"
proof -
  have "elapsed js 0 [\<lparr>tsISO = ''1970-01-01T00:00:01Z'', amount = Finite 1\<rparr>]
          = Some (ValidDur (- 1000))"
    by code_simp
  then show ?thesis by simp
qed

subsection \<open>The interval between adjacent records\<close>








subsection \<open>Decoding: rows, fields and totality\<close>

lemma split_comma_not_Nil: "split_comma line \<noteq> []"
  by (induction line) (auto split: list.splits)

lemma split_comma_first: "at_index (split_comma line) 0 = Some (field_ts line)"
proof (induction line)
  case Nil
  show ?case by (simp add: at_index_def field_ts_def)
next
  case (Cons c cs)
  then show ?case
    using split_comma_not_Nil [of cs]
    by (auto simp: at_index_def field_ts_def split: list.splits if_splits)
qed

lemma split_comma_second: "at_index (split_comma line) 1 = field_amt line"
proof (induction line)
  case Nil
  show ?case by (simp add: at_index_def field_amt_def)
next
  case (Cons c cs)
  show ?case
  proof (cases "c = CHR '',''")
    case True
    with split_comma_first [of cs] split_comma_not_Nil [of cs] show ?thesis
      by (auto simp: at_index_def field_amt_def field_ts_def split: if_splits)
  next
    case False
    obtain l ls where sc: "split_comma cs = l # ls"
      using split_comma_not_Nil [of cs] by (cases "split_comma cs") auto
    with Cons False show ?thesis
      by (auto simp: at_index_def field_amt_def split: if_splits)
  qed
qed

lemma row_step_kept:
  "row_step P line es = (if kept P line then Inr (es @ [record_of P line]) else Inr es)"
  using split_comma_first [of line] split_comma_second [of line]
  by (auto simp: row_step_def Let_def kept_def record_of_def falsy_def split: option.splits)

lemma parse_rows_kept:
  "parse_rows P rows es = Inr (es @ map (record_of P) (filter (kept P) rows))"
  by (induction rows arbitrary: es) (simp_all add: row_step_kept)

lemma parseCSV_eq:
  "parseCSV P csv =
     Inr (js_sort (by_instant_desc P) (map (record_of P) (filter (kept P) (csv_rows csv))))"
proof (cases "csv_lines csv")
  case Nil
  then show ?thesis by (simp add: parseCSV_def csv_rows_def js_sort_def)
next
  case (Cons first rest)
  then show ?thesis
    by (simp add: parseCSV_def csv_rows_def at_index_def Let_def parse_rows_kept)
qed

lemma mset_insert_by: "mset (insert_by cmp x ys) = add_mset x (mset ys)"
  by (induction ys) simp_all

lemma mset_js_sort: "mset (js_sort cmp xs) = mset xs"
  by (induction xs) (simp_all add: js_sort_def mset_insert_by)

lemma set_js_sort: "set (js_sort cmp xs) = set xs"
  using mset_js_sort [of cmp xs] by (metis set_mset_mset)

lemma trim_spaces: "list_all is_space s \<Longrightarrow> trim s = []"
proof -
  assume "list_all is_space s"
  then have "dropWhile is_space s = []" by (simp add: list_all_iff)
  then show ?thesis by (simp only: trim_def rev.simps dropWhile.simps)
qed

lemma parseCSV_spaces: "list_all is_space csv \<Longrightarrow> parseCSV P csv = Inr []"
  by (simp add: parseCSV_def csv_lines_def trim_spaces)

text \<open>
  C10. \<open>parseCSV\<close> returns a list for every text: the reads of \<^verbatim>\<open>lines[0]\<close> and of
  \<^verbatim>\<open>ts\<close> that could raise are guarded, the loop runs once over the rows and the library
  calls do not throw. So \<open>loadEntries\<close> never returns through its \<^verbatim>\<open>catch\<close>.
\<close>

theorem parseCSV_total:
  "(\<exists>es. parseCSV P csv = Inr es) \<and> fst (loadEntries_path P stored) \<noteq> Caught"
  by (simp add: parseCSV_eq loadEntries_path_def split: option.splits)

text \<open>
  C6. Of each line the loop uses two fields: the text before the first comma as the
  timestamp and the text between the first comma and the next one (or the end of the
  line) as the amount. Both must be present and not empty, and nothing after the second
  field is read: the step keeps the record of these two fields or leaves the list as it
  is. (The source splits on every comma and takes the first two parts, which gives
  these fields.)
\<close>

theorem row_step_two_fields:
  "at_index (split_comma line) 0 = Some (field_ts line)
   \<and> at_index (split_comma line) 1 = field_amt line
   \<and> row_step P line es = (if kept P line then Inr (es @ [record_of P line]) else Inr es)"
  using split_comma_first split_comma_second row_step_kept by blast

text \<open>A line with two more commas after the amount: the amount is the second field.\<close>

theorem row_step_two_fields_witness:
  "field_ts ''2024-03-02T14:05:00+01:00,1.0,x,7'' = ''2024-03-02T14:05:00+01:00''
   \<and> field_amt ''2024-03-02T14:05:00+01:00,1.0,x,7'' = Some ''1.0''
   \<and> row_step js ''2024-03-02T14:05:00+01:00,1.0,x,7'' []
       = Inr [\<lparr>tsISO = ''2024-03-02T14:05:00+01:00'', amount = Finite 1\<rparr>]"
proof -
  have k: "kept js ''2024-03-02T14:05:00+01:00,1.0,x,7''" by code_simp
  have r: "record_of js ''2024-03-02T14:05:00+01:00,1.0,x,7''
             = \<lparr>tsISO = ''2024-03-02T14:05:00+01:00'', amount = Finite 1\<rparr>"
    by code_simp
  have t: "field_ts ''2024-03-02T14:05:00+01:00,1.0,x,7'' = ''2024-03-02T14:05:00+01:00''"
    by code_simp
  have a: "field_amt ''2024-03-02T14:05:00+01:00,1.0,x,7'' = Some ''1.0''"
    by code_simp
  from row_step_two_fields [of "''2024-03-02T14:05:00+01:00,1.0,x,7''" js "[]"] k r t a
  show ?thesis by simp
qed

text \<open>
  C9. \<open>parseCSV\<close> raises no error on any text. Its result holds, up to the order, the
  records of exactly the data rows that have both fields and an amount field that reads
  as a finite number: a line whose amount is not finite is dropped and the other lines
  are kept. Every amount of the result is finite. A text of white space only, the empty
  text included, gives the empty list.
\<close>

theorem parseCSV_keeps_finite_rows:
  "(\<exists>es. parseCSV P csv = Inr es
        \<and> mset es = mset (map (record_of P) (filter (kept P) (csv_rows csv)))
        \<and> list_all (\<lambda>e. Number_isFinite (amount e)) es)
   \<and> (list_all is_space csv \<longrightarrow> parseCSV P csv = Inr [])"
proof -
  let ?es = "js_sort (by_instant_desc P) (map (record_of P) (filter (kept P) (csv_rows csv)))"
  have "Number_isFinite (amount e)" if "e \<in> set ?es" for e
  proof -
    from that obtain line where "kept P line" "e = record_of P line"
      by (auto simp: set_js_sort)
    then show ?thesis by (auto simp: kept_def record_of_def split: option.splits)
  qed
  then have "list_all (\<lambda>e. Number_isFinite (amount e)) ?es" by (simp add: list_all_iff)
  then have "parseCSV P csv = Inr ?es
      \<and> mset ?es = mset (map (record_of P) (filter (kept P) (csv_rows csv)))
      \<and> list_all (\<lambda>e. Number_isFinite (amount e)) ?es"
    by (simp add: parseCSV_eq mset_js_sort)
  then have "\<exists>es. parseCSV P csv = Inr es
        \<and> mset es = mset (map (record_of P) (filter (kept P) (csv_rows csv)))
        \<and> list_all (\<lambda>e. Number_isFinite (amount e)) es"
    by blast
  then show ?thesis using parseCSV_spaces by blast
qed

text \<open>
  Two spaces and two line feeds give the empty list; of three data lines the one with the
  amount \<open>abc\<close> is dropped and the two others are kept.
\<close>

theorem parseCSV_keeps_finite_rows_witness:
  "list_all is_space [CHR '' '', CHR '' '', LF, LF]
   \<and> parseCSV js [CHR '' '', CHR '' '', LF, LF] = Inr []
   \<and> \<not> kept js ''2024-01-01T10:00:00+01:00,abc''
   \<and> parseCSV js (''timestamp,amount'' @ [LF] @ ''2024-03-02T14:05:00+01:00,1.0'' @ [LF]
        @ ''2024-01-01T10:00:00+01:00,abc'' @ [LF] @ ''2024-03-02T10:30:00+01:00,0.5'')
      = Inr [\<lparr>tsISO = ''2024-03-02T14:05:00+01:00'', amount = Finite 1\<rparr>,
             \<lparr>tsISO = ''2024-03-02T10:30:00+01:00'', amount = Finite (1 / 2)\<rparr>]"
proof -
  have s: "list_all is_space [CHR '' '', CHR '' '', LF, LF]" by code_simp
  from parseCSV_keeps_finite_rows [of js "[CHR '' '', CHR '' '', LF, LF]"] s
  have e: "parseCSV js [CHR '' '', CHR '' '', LF, LF] = Inr []" by blast
  have k: "\<not> kept js ''2024-01-01T10:00:00+01:00,abc''" by code_simp
  have p: "parseCSV js (''timestamp,amount'' @ [LF] @ ''2024-03-02T14:05:00+01:00,1.0'' @ [LF]
        @ ''2024-01-01T10:00:00+01:00,abc'' @ [LF] @ ''2024-03-02T10:30:00+01:00,0.5'')
      = Inr [\<lparr>tsISO = ''2024-03-02T14:05:00+01:00'', amount = Finite 1\<rparr>,
             \<lparr>tsISO = ''2024-03-02T10:30:00+01:00'', amount = Finite (1 / 2)\<rparr>]"
    by code_simp
  from s e k p show ?thesis by blast
qed

subsection \<open>Encoding: the amount field\<close>

lemma digit_char_not_point: "d < 10 \<Longrightarrow> digit_char d \<noteq> CHR ''.''"
proof -
  assume "d < 10"
  then have "digit_char d \<in> set ''0123456789''"
    unfolding digit_char_def by (intro nth_mem) simp
  then show ?thesis by auto
qed

lemma digits_of_no_point: "CHR ''.'' \<notin> set (digits_of n)"
proof (induction n rule: digits_of.induct)
  case (1 n)
  show ?case
  proof (cases "n < 10")
    case True
    then show ?thesis using digit_char_not_point [of n] by (simp add: digits_of_small)
  next
    case False
    with 1 show ?thesis
      using digit_char_not_point [of "n mod 10"] by (simp add: digits_of_large)
  qed
qed

lemma show_int_no_point: "CHR ''.'' \<notin> set (show_int k)"
  by (simp add: show_int_def digits_of_no_point)

text \<open>
  C7, as amended. \<open>addDose\<close> stores the slider value rounded to one decimal place
  (\<^verbatim>\<open>Number(doseAmt.toFixed(1))\<close>) and saves the log; the line of a record holds the
  amount in JavaScript's default number text, not in a fixed number of decimals: an amount
  that is a whole number \<open>k\<close> of magnitude up to \<open>2\<^sup>5\<^sup>3\<close> is written as the digits of
  \<open>k\<close>, with no decimal point.
\<close>

theorem csv_line_whole_amount:
  "(amount e = Finite (of_int k) \<and> \<bar>k\<bar> \<le> 2 ^ 53 \<longrightarrow>
      csv_line P e = tsISO e @ '','' @ show_int k \<and> CHR ''.'' \<notin> set (show_int k))
   \<and> (\<not> isAddingDose st \<longrightarrow>
        entries (addDose P nowISO st)
          = \<lparr>tsISO = nowISO, amount = toNumber P (toFixed1 P (doseAmt st))\<rparr> # entries st
        \<and> storage (addDose P nowISO st) = Some (entriesToCSV P (entries (addDose P nowISO st))))"
  by (simp add: csv_line_def js_toString_int show_int_no_point addDose_def Let_def saveEntries_def)

text \<open>The amount 1, and a dose of 1 added to the empty log.\<close>

theorem csv_line_whole_amount_witness:
  "amount \<lparr>tsISO = ''2024-03-02T14:05:00+01:00'', amount = Finite 1\<rparr> = Finite (of_int 1)
   \<and> \<bar>1 :: int\<bar> \<le> 2 ^ 53
   \<and> csv_line js \<lparr>tsISO = ''2024-03-02T14:05:00+01:00'', amount = Finite 1\<rparr>
       = ''2024-03-02T14:05:00+01:00,1''
   \<and> \<not> isAddingDose \<lparr>entries = [], doseAmt = Finite 1, isAddingDose = False, storage = None\<rparr>
   \<and> storage (addDose js ''2024-03-02T14:05:00+01:00''
         \<lparr>entries = [], doseAmt = Finite 1, isAddingDose = False, storage = None\<rparr>)
       = Some (''timestamp,amount'' @ [LF] @ ''2024-03-02T14:05:00+01:00,1'')"
proof -
  have s: "show_int 1 = ''1''" by code_simp
  have n: "toNumber js (toFixed1 js (Finite 1)) = Finite 1" by code_simp
  have c: "entriesToCSV js [\<lparr>tsISO = ''2024-03-02T14:05:00+01:00'', amount = Finite 1\<rparr>]
             = ''timestamp,amount'' @ [LF] @ ''2024-03-02T14:05:00+01:00,1''"
    by code_simp
  from csv_line_whole_amount
    [of "\<lparr>tsISO = ''2024-03-02T14:05:00+01:00'', amount = Finite 1\<rparr>" 1 js
        "\<lparr>entries = [], doseAmt = Finite 1, isAddingDose = False, storage = None\<rparr>"
        "''2024-03-02T14:05:00+01:00''"] s n c
  show ?thesis by simp
qed

text \<open>
  The claim as stated fails: the record with the amount 1 is written with the amount
  field \<open>1\<close>, not \<open>1.0\<close>.
\<close>

theorem amount_one_decimal_counterexample:
  "entriesToCSV js [\<lparr>tsISO = ''2024-03-02T14:05:00+01:00'', amount = Finite 1\<rparr>]
     = ''timestamp,amount'' @ [LF] @ ''2024-03-02T14:05:00+01:00,1''
   \<and> entriesToCSV js [\<lparr>tsISO = ''2024-03-02T14:05:00+01:00'', amount = Finite 1\<rparr>]
     \<noteq> ''timestamp,amount'' @ [LF] @ ''2024-03-02T14:05:00+01:00,1.0''"
  by code_simp


subsection \<open>The order of the log\<close>

lemma cmp_valid:
  "fromISO P (tsISO x) = ValidDT a \<Longrightarrow> fromISO P (tsISO y) = ValidDT b \<Longrightarrow>
   js_less (Finite 0) (by_instant_desc P x y) \<longleftrightarrow> a < b"
  by (simp add: by_instant_desc_def)

lemma not_earlier_valid:
  "fromISO P (tsISO x) = ValidDT a \<Longrightarrow> fromISO P (tsISO y) = ValidDT b \<Longrightarrow>
   not_earlier P x y \<longleftrightarrow> b \<le> a"
  by (simp add: not_earlier_def)

lemma parseableE:
  assumes "parseable P e"
  obtains a where "fromISO P (tsISO e) = ValidDT a"
  using assms by (cases "fromISO P (tsISO e)") (auto simp: parseable_def)

lemma set_insert_by: "set (insert_by cmp x ys) = insert x (set ys)"
  by (induction ys) auto

lemma sorted_insert_by:
  assumes "parseable P x" "list_all (parseable P) ys" "sorted_wrt (not_earlier P) ys"
  shows "sorted_wrt (not_earlier P) (insert_by (by_instant_desc P) x ys)"
  using assms(2,3)
proof (induction ys)
  case Nil
  show ?case by simp
next
  case (Cons y ys)
  from assms(1) obtain a where a: "fromISO P (tsISO x) = ValidDT a" by (rule parseableE)
  from Cons.prems(1) obtain b where b: "fromISO P (tsISO y) = ValidDT b"
    by (auto elim: parseableE)
  show ?case
  proof (cases "a < b")
    case True
    then have "not_earlier P y x" using a b by (simp add: not_earlier_valid)
    with True Cons a b show ?thesis
      by (simp add: cmp_valid set_insert_by)
  next
    case False
    have "not_earlier P x z" if "z \<in> set ys" for z
    proof -
      from that Cons.prems(1) obtain c where c: "fromISO P (tsISO z) = ValidDT c"
        by (auto simp: list_all_iff elim: parseableE)
      from that Cons.prems(2) have "not_earlier P y z" by simp
      with b c have "c \<le> b" by (simp add: not_earlier_valid)
      with False a c show ?thesis by (simp add: not_earlier_valid)
    qed
    moreover from False a b have "not_earlier P x y" by (simp add: not_earlier_valid)
    ultimately show ?thesis using False Cons.prems(2) a b by (simp add: cmp_valid)
  qed
qed

lemma sorted_js_sort:
  "list_all (parseable P) xs \<Longrightarrow> sorted_wrt (not_earlier P) (js_sort (by_instant_desc P) xs)"
proof (induction xs)
  case Nil
  show ?case by (simp add: js_sort_def)
next
  case (Cons x xs)
  then have s: "sorted_wrt (not_earlier P) (js_sort (by_instant_desc P) xs)" by simp
  from Cons.prems have p: "list_all (parseable P) (js_sort (by_instant_desc P) xs)"
    by (simp add: list_all_iff set_js_sort)
  from Cons.prems have "parseable P x" by simp
  from sorted_insert_by [OF this p s] show ?case by (simp add: js_sort_def)
qed

lemma js_sort_sorted:
  "list_all (parseable P) xs \<Longrightarrow> sorted_wrt (not_earlier P) xs \<Longrightarrow>
   js_sort (by_instant_desc P) xs = xs"
proof (induction xs)
  case Nil
  show ?case by (simp add: js_sort_def)
next
  case (Cons x xs)
  then have ih: "js_sort (by_instant_desc P) xs = xs" by simp
  note prems = Cons.prems
  have "insert_by (by_instant_desc P) x xs = x # xs"
  proof (cases xs)
    case Nil
    then show ?thesis by simp
  next
    case tail: (Cons y ys)
    from prems(1) obtain a where a: "fromISO P (tsISO x) = ValidDT a"
      by (auto elim: parseableE)
    from prems(1) tail obtain b where b: "fromISO P (tsISO y) = ValidDT b"
      by (auto elim: parseableE)
    from prems(2) tail have "not_earlier P x y" by simp
    with a b have "\<not> a < b" by (simp add: not_earlier_valid)
    with a b tail show ?thesis by (simp add: cmp_valid)
  qed
  with ih show ?case by (simp add: js_sort_def)
qed

text \<open>
  C5, as amended. The log is sorted descending by parsed instant after a load whose
  records all have a parseable timestamp, after \<open>addDose\<close> when the new record is not
  earlier than the records of a sorted log, and after \<open>deleteSingleDose\<close> on a sorted
  log, which keeps the remaining records in their order.
\<close>

theorem log_sorted_when_parseable:
  "(parseCSV P csv = Inr es \<and> list_all (parseable P) es \<longrightarrow> sorted_desc P es)
   \<and> (sorted_desc P (entries st)
        \<and> list_all (not_earlier P \<lparr>tsISO = nowISO, amount = toNumber P (toFixed1 P (doseAmt st))\<rparr>)
             (entries st)
      \<longrightarrow> sorted_desc P (entries (addDose P nowISO st)))
   \<and> (sorted_desc P (entries st) \<longrightarrow>
        sorted_desc P (entries (deleteSingleDose P e st))
        \<and> subseq (entries (deleteSingleDose P e st)) (entries st))"
proof -
  have a: "sorted_desc P es" if "parseCSV P csv = Inr es" "list_all (parseable P) es"
  proof -
    let ?xs = "map (record_of P) (filter (kept P) (csv_rows csv))"
    from that(1) have es: "es = js_sort (by_instant_desc P) ?xs" by (simp add: parseCSV_eq)
    with that(2) have "list_all (parseable P) ?xs"
      by (simp only: list_all_iff set_js_sort)
    then show ?thesis unfolding es sorted_desc_def by (rule sorted_js_sort)
  qed
  have b: "sorted_desc P (entries (addDose P nowISO st))"
    if "sorted_desc P (entries st)"
      "list_all (not_earlier P \<lparr>tsISO = nowISO, amount = toNumber P (toFixed1 P (doseAmt st))\<rparr>)
             (entries st)"
    using that by (simp add: addDose_def Let_def saveEntries_def sorted_desc_def list_all_iff)
  have c: "sorted_desc P (entries (deleteSingleDose P e st))
        \<and> subseq (entries (deleteSingleDose P e st)) (entries st)"
    if "sorted_desc P (entries st)"
    using that
    by (simp add: deleteSingleDose_def Let_def saveEntries_def sorted_desc_def sorted_wrt_filter)
  from a b c show ?thesis by blast
qed

text \<open>
  Two rows stored in ascending order are loaded in descending order; a dose at 15:00 is
  put in front; deleting the record of 14:05 leaves a sorted log.
\<close>

theorem log_sorted_when_parseable_witness:
  "parseCSV js (''timestamp,amount'' @ [LF] @ ''2024-03-02T10:30:00+01:00,0.5'' @ [LF]
        @ ''2024-03-02T14:05:00+01:00,1'')
     = Inr [\<lparr>tsISO = ''2024-03-02T14:05:00+01:00'', amount = Finite 1\<rparr>,
            \<lparr>tsISO = ''2024-03-02T10:30:00+01:00'', amount = Finite (1 / 2)\<rparr>]
   \<and> list_all (parseable js)
        [\<lparr>tsISO = ''2024-03-02T14:05:00+01:00'', amount = Finite 1\<rparr>,
         \<lparr>tsISO = ''2024-03-02T10:30:00+01:00'', amount = Finite (1 / 2)\<rparr>]
   \<and> sorted_desc js
        [\<lparr>tsISO = ''2024-03-02T14:05:00+01:00'', amount = Finite 1\<rparr>,
         \<lparr>tsISO = ''2024-03-02T10:30:00+01:00'', amount = Finite (1 / 2)\<rparr>]
   \<and> list_all (not_earlier js \<lparr>tsISO = ''2024-03-02T15:00:00+01:00'', amount = Finite (1 / 2)\<rparr>)
        [\<lparr>tsISO = ''2024-03-02T14:05:00+01:00'', amount = Finite 1\<rparr>,
         \<lparr>tsISO = ''2024-03-02T10:30:00+01:00'', amount = Finite (1 / 2)\<rparr>]
   \<and> sorted_desc js (entries (addDose js ''2024-03-02T15:00:00+01:00''
        \<lparr>entries = [\<lparr>tsISO = ''2024-03-02T14:05:00+01:00'', amount = Finite 1\<rparr>,
                     \<lparr>tsISO = ''2024-03-02T10:30:00+01:00'', amount = Finite (1 / 2)\<rparr>],
          doseAmt = Finite (1 / 2), isAddingDose = False, storage = None\<rparr>))
   \<and> sorted_desc js (entries (deleteSingleDose js
        \<lparr>tsISO = ''2024-03-02T14:05:00+01:00'', amount = Finite 1\<rparr>
        \<lparr>entries = [\<lparr>tsISO = ''2024-03-02T14:05:00+01:00'', amount = Finite 1\<rparr>,
                     \<lparr>tsISO = ''2024-03-02T10:30:00+01:00'', amount = Finite (1 / 2)\<rparr>],
          doseAmt = Finite (1 / 2), isAddingDose = False, storage = None\<rparr>))"
proof -
  let ?es = "[\<lparr>tsISO = ''2024-03-02T14:05:00+01:00'', amount = Finite 1\<rparr>,
              \<lparr>tsISO = ''2024-03-02T10:30:00+01:00'', amount = Finite (1 / 2)\<rparr>]"
  let ?st = "\<lparr>entries = ?es, doseAmt = Finite (1 / 2), isAddingDose = False, storage = None\<rparr>"
  let ?csv = "''timestamp,amount'' @ [LF] @ ''2024-03-02T10:30:00+01:00,0.5'' @ [LF]
        @ ''2024-03-02T14:05:00+01:00,1''"
  have p: "parseCSV js ?csv = Inr ?es" by code_simp
  have v: "list_all (parseable js) ?es" by code_simp
  have n: "toNumber js (toFixed1 js (doseAmt ?st)) = Finite (1 / 2)" by code_simp
  have l: "list_all (not_earlier js \<lparr>tsISO = ''2024-03-02T15:00:00+01:00'', amount = Finite (1 / 2)\<rparr>) ?es"
    by code_simp
  note t = log_sorted_when_parseable
    [of js ?csv ?es ?st "''2024-03-02T15:00:00+01:00''"
        "\<lparr>tsISO = ''2024-03-02T14:05:00+01:00'', amount = Finite 1\<rparr>"]
  from t p v have s: "sorted_desc js ?es" by blast
  from t s l n have a: "sorted_desc js (entries (addDose js ''2024-03-02T15:00:00+01:00'' ?st))"
    by simp
  from t s have d: "sorted_desc js (entries (deleteSingleDose js
        \<lparr>tsISO = ''2024-03-02T14:05:00+01:00'', amount = Finite 1\<rparr> ?st))"
    by simp
  from p v s l a d show ?thesis by blast
qed

text \<open>
  The claim as stated fails: a stored row whose timestamp does not parse, between two
  rows in ascending order, leaves the later record behind the earlier one.
\<close>

theorem unparseable_row_unsorted_counterexample:
  "parseCSV js (''1970-01-01T00:00:01Z,1'' @ [LF] @ ''xx,1'' @ [LF] @ ''1970-01-01T00:00:02Z,1'')
     = Inr [\<lparr>tsISO = ''1970-01-01T00:00:01Z'', amount = Finite 1\<rparr>,
            \<lparr>tsISO = ''xx'', amount = Finite 1\<rparr>,
            \<lparr>tsISO = ''1970-01-01T00:00:02Z'', amount = Finite 1\<rparr>]
   \<and> \<not> sorted_desc js [\<lparr>tsISO = ''1970-01-01T00:00:01Z'', amount = Finite 1\<rparr>,
            \<lparr>tsISO = ''xx'', amount = Finite 1\<rparr>,
            \<lparr>tsISO = ''1970-01-01T00:00:02Z'', amount = Finite 1\<rparr>]"
  by code_simp


subsection \<open>The round trip\<close>

lemma join_LF: "join [LF] (x # xs) = x @ concat (map (\<lambda>l. LF # l) xs)"
  by (induction xs arbitrary: x) simp_all

lemma entriesToCSV_eq:
  "entriesToCSV P es = CSV_HEADER @ concat (map (\<lambda>e. LF # csv_line P e) es)"
  by (simp add: entriesToCSV_def join_LF comp_def)

lemma split_lines_single: "LF \<notin> set l \<Longrightarrow> CR \<notin> set l \<Longrightarrow> split_lines l = [l]"
  by (induction l rule: split_lines.induct) auto

lemma split_lines_line:
  "LF \<notin> set l \<Longrightarrow> CR \<notin> set l \<Longrightarrow> split_lines (l @ LF # rest) = l # split_lines rest"
proof (induction l)
  case Nil
  show ?case by (cases rest) simp_all
next
  case (Cons c l)
  then have ih: "split_lines (l @ LF # rest) = l # split_lines rest" by simp
  obtain d cs where t: "l @ LF # rest = d # cs" by (cases "l @ LF # rest") auto
  from Cons.prems have "c \<noteq> LF" "c \<noteq> CR" by auto
  then have "split_lines (c # d # cs) = (case split_lines (d # cs) of [] \<Rightarrow> [[c]] | l # ls \<Rightarrow> (c # l) # ls)"
    by simp
  with ih t show ?case by simp
qed

lemma split_lines_joined:
  assumes "LF \<notin> set x" "CR \<notin> set x" "list_all (\<lambda>l. LF \<notin> set l \<and> CR \<notin> set l) xs"
  shows "split_lines (x @ concat (map (\<lambda>l. LF # l) xs)) = x # xs"
  using assms
proof (induction xs arbitrary: x)
  case Nil
  then show ?case by (simp add: split_lines_single)
next
  case (Cons y ys)
  then have "split_lines (y @ concat (map (\<lambda>l. LF # l) ys)) = y # ys" by simp
  with Cons.prems show ?case by (simp add: split_lines_line)
qed

lemma trim_id:
  assumes "s \<noteq> []" "\<not> is_space (hd s)" "\<not> is_space (last s)"
  shows "trim s = s"
proof -
  from assms have a: "dropWhile is_space s = s" by (cases s) simp_all
  from assms have "rev s \<noteq> []" "\<not> is_space (hd (rev s))" by (simp_all add: hd_rev)
  then have "dropWhile is_space (rev s) = rev s" by (cases "rev s") simp_all
  with a show ?thesis by (simp add: trim_def)
qed

lemma last_joined:
  "list_all (\<lambda>l. l \<noteq> []) xs \<Longrightarrow> x \<noteq> [] \<Longrightarrow>
   last (x @ concat (map (\<lambda>l. LF # l) xs)) = last (last (x # xs))"
  by (induction xs arbitrary: x) (auto simp: last_append)

lemma plain_text_last: "plain_text s \<Longrightarrow> \<not> is_space (last s)"
  by (auto simp: plain_text_def list_all_iff)

lemma field_ts_line:
  "list_all (\<lambda>c. c \<noteq> CHR '','') ts \<Longrightarrow> field_ts (ts @ CHR '','' # amt) = ts"
  by (induction ts) (simp_all add: field_ts_def)

lemma field_amt_line:
  "list_all (\<lambda>c. c \<noteq> CHR '','') ts \<Longrightarrow> list_all (\<lambda>c. c \<noteq> CHR '','') amt \<Longrightarrow>
   field_amt (ts @ CHR '','' # amt) = Some amt"
proof -
  assume ts: "list_all (\<lambda>c. c \<noteq> CHR '','') ts" and amt: "list_all (\<lambda>c. c \<noteq> CHR '','') amt"
  from ts have "dropWhile (\<lambda>c. c \<noteq> CHR '','') (ts @ CHR '','' # amt) = CHR '','' # amt"
    by (induction ts) simp_all
  moreover from amt have "takeWhile (\<lambda>c. c \<noteq> CHR '','') amt = amt"
    by (simp add: list_all_iff)
  ultimately show ?thesis by (simp add: field_amt_def)
qed

lemma csv_line_kept:
  assumes "clean_timestamp (tsISO e)" "Number_isFinite (amount e)" "reads_back P (amount e)"
  shows "kept P (csv_line P e) \<and> record_of P (csv_line P e) = e"
proof -
  let ?amt = "js_toString P (amount e)"
  from assms(1) have ts: "list_all (\<lambda>c. c \<noteq> CHR '','') (tsISO e)"
    by (simp add: clean_timestamp_def list_all_iff)
  from assms(3) have amt: "list_all (\<lambda>c. c \<noteq> CHR '','') ?amt" and ne: "?amt \<noteq> []"
    and rb: "toNumber P ?amt = amount e"
    by (simp_all add: reads_back_def plain_text_def list_all_iff)
  have l: "csv_line P e = tsISO e @ CHR '','' # ?amt" by (simp add: csv_line_def)
  have f1: "field_ts (csv_line P e) = tsISO e" unfolding l using ts by (rule field_ts_line)
  have f2: "field_amt (csv_line P e) = Some ?amt" unfolding l using ts amt by (rule field_amt_line)
  from assms(1) have "tsISO e \<noteq> []" "trim (tsISO e) = tsISO e"
    by (simp_all add: clean_timestamp_def)
  with f1 f2 ne rb assms(2) show ?thesis by (simp add: kept_def record_of_def)
qed

lemma csv_line_no_break:
  assumes "clean_timestamp (tsISO e)" "reads_back P (amount e)"
  shows "LF \<notin> set (csv_line P e) \<and> CR \<notin> set (csv_line P e) \<and> csv_line P e \<noteq> []
         \<and> \<not> is_space (last (csv_line P e))"
proof -
  from assms(2) have p: "plain_text (js_toString P (amount e))" by (simp add: reads_back_def)
  then have "\<forall>c \<in> set (js_toString P (amount e)). \<not> is_space c" and ne: "js_toString P (amount e) \<noteq> []"
    by (simp_all add: plain_text_def list_all_iff)
  then have "LF \<notin> set (js_toString P (amount e))" "CR \<notin> set (js_toString P (amount e))"
    by (auto simp: is_space_def)
  moreover from assms(1) have "LF \<notin> set (tsISO e)" "CR \<notin> set (tsISO e)"
    by (auto simp: clean_timestamp_def list_all_iff)
  moreover from ne have "last (csv_line P e) = last (js_toString P (amount e))"
    by (simp add: csv_line_def)
  ultimately show ?thesis using plain_text_last [OF p] by (simp add: csv_line_def)
qed

lemma header_facts:
  "LF \<notin> set CSV_HEADER" "CR \<notin> set CSV_HEADER" "CSV_HEADER \<noteq> []"
  "\<not> is_space (hd CSV_HEADER)" "\<not> is_space (last CSV_HEADER)"
  "startsWith (toLowerCase CSV_HEADER) ''timestamp,''"
  by code_simp+

lemma csv_rows_encoded:
  assumes "list_all (\<lambda>e. clean_timestamp (tsISO e) \<and> reads_back P (amount e)) r"
  shows "csv_rows (entriesToCSV P r) = map (csv_line P) r"
proof -
  let ?ls = "map (csv_line P) r"
  let ?text = "CSV_HEADER @ concat (map (\<lambda>l. LF # l) ?ls)"
  have enc: "entriesToCSV P r = ?text" by (simp add: entriesToCSV_eq comp_def)
  from assms have nb: "list_all (\<lambda>l. LF \<notin> set l \<and> CR \<notin> set l) ?ls"
    and ne: "list_all (\<lambda>l. l \<noteq> []) ?ls"
    and ns: "list_all (\<lambda>l. \<not> is_space (last l)) ?ls"
    using csv_line_no_break by (auto simp: list_all_iff)
  have "last ?text = last (last (CSV_HEADER # ?ls))"
    using ne header_facts(3) by (rule last_joined)
  moreover have "\<not> is_space (last (last (CSV_HEADER # ?ls)))"
    using ns header_facts(5) by (cases r rule: rev_cases) (simp_all add: list_all_iff)
  ultimately have "\<not> is_space (last ?text)" by simp
  moreover have "hd ?text = hd CSV_HEADER" using header_facts(3) by simp
  ultimately have "trim ?text = ?text"
    using header_facts(3,4) by (intro trim_id) simp_all
  moreover have "split_lines ?text = CSV_HEADER # ?ls"
    using header_facts(1,2) nb by (rule split_lines_joined)
  ultimately have "csv_lines (entriesToCSV P r) = CSV_HEADER # ?ls"
    using ne header_facts(3) unfolding enc
    by (simp add: csv_lines_def list_all_iff filter_id_conv)
  then show ?thesis using header_facts(6) by (simp add: csv_rows_def)
qed

text \<open>
  C1, as amended. For every list of records that is sorted descending by parsed instant,
  whose timestamps are parseable, have no white space around them and contain no comma
  and no line break, and whose amounts are finite numbers (which the platform writes as
  plain text and reads back), decoding the encoded list gives the list itself. The empty
  list is included.
\<close>

theorem decode_encode_roundtrip:
  assumes "sorted_desc P r"
    and "list_all (parseable P) r"
    and "list_all (\<lambda>e. clean_timestamp (tsISO e)) r"
    and "list_all (\<lambda>e. Number_isFinite (amount e) \<and> reads_back P (amount e)) r"
  shows "parseCSV P (entriesToCSV P r) = Inr r"
proof -
  from assms(3,4) have "list_all (\<lambda>e. clean_timestamp (tsISO e) \<and> reads_back P (amount e)) r"
    by (simp add: list_all_iff)
  then have rows: "csv_rows (entriesToCSV P r) = map (csv_line P) r" by (rule csv_rows_encoded)
  from assms(3,4) have k: "\<forall>e \<in> set r. kept P (csv_line P e) \<and> record_of P (csv_line P e) = e"
    using csv_line_kept by (simp add: list_all_iff)
  then have "filter (kept P) (map (csv_line P) r) = map (csv_line P) r"
    by (simp add: filter_id_conv)
  moreover from k have "map (record_of P) (map (csv_line P) r) = r"
    by (simp add: map_idI)
  ultimately have "parseCSV P (entriesToCSV P r) = Inr (js_sort (by_instant_desc P) r)"
    by (simp add: parseCSV_eq rows)
  with assms(1,2) show ?thesis by (simp add: js_sort_sorted sorted_desc_def)
qed

text \<open>The log of the documented layout.\<close>

theorem decode_encode_roundtrip_witness:
  "sorted_desc js
     [\<lparr>tsISO = ''2024-03-02T14:05:00+01:00'', amount = Finite 1\<rparr>,
      \<lparr>tsISO = ''2024-03-02T10:30:00+01:00'', amount = Finite (1 / 2)\<rparr>]
   \<and> list_all (parseable js)
     [\<lparr>tsISO = ''2024-03-02T14:05:00+01:00'', amount = Finite 1\<rparr>,
      \<lparr>tsISO = ''2024-03-02T10:30:00+01:00'', amount = Finite (1 / 2)\<rparr>]
   \<and> list_all (\<lambda>e. clean_timestamp (tsISO e))
     [\<lparr>tsISO = ''2024-03-02T14:05:00+01:00'', amount = Finite 1\<rparr>,
      \<lparr>tsISO = ''2024-03-02T10:30:00+01:00'', amount = Finite (1 / 2)\<rparr>]
   \<and> list_all (\<lambda>e. Number_isFinite (amount e) \<and> reads_back js (amount e))
     [\<lparr>tsISO = ''2024-03-02T14:05:00+01:00'', amount = Finite 1\<rparr>,
      \<lparr>tsISO = ''2024-03-02T10:30:00+01:00'', amount = Finite (1 / 2)\<rparr>]
   \<and> parseCSV js (entriesToCSV js
       [\<lparr>tsISO = ''2024-03-02T14:05:00+01:00'', amount = Finite 1\<rparr>,
        \<lparr>tsISO = ''2024-03-02T10:30:00+01:00'', amount = Finite (1 / 2)\<rparr>])
     = Inr [\<lparr>tsISO = ''2024-03-02T14:05:00+01:00'', amount = Finite 1\<rparr>,
            \<lparr>tsISO = ''2024-03-02T10:30:00+01:00'', amount = Finite (1 / 2)\<rparr>]"
proof -
  let ?r = "[\<lparr>tsISO = ''2024-03-02T14:05:00+01:00'', amount = Finite 1\<rparr>,
             \<lparr>tsISO = ''2024-03-02T10:30:00+01:00'', amount = Finite (1 / 2)\<rparr>]"
  have s: "sorted_desc js ?r" by code_simp
  have p: "list_all (parseable js) ?r" by code_simp
  have c: "list_all (\<lambda>e. clean_timestamp (tsISO e)) ?r" by code_simp
  have a: "list_all (\<lambda>e. Number_isFinite (amount e) \<and> reads_back js (amount e)) ?r"
    by code_simp
  from decode_encode_roundtrip [OF s p c a] s p c a show ?thesis by blast
qed

text \<open>
  The claim as stated fails: a timestamp with a decimal comma in the seconds is a
  parseable ISO timestamp without white space around it, and the one-record log with it
  and the amount 1 is decoded from its own encoding as the empty list.
\<close>

theorem comma_timestamp_roundtrip_counterexample:
  "[\<lparr>tsISO = ''2024-03-02T14:05:00,5+01:00'', amount = Finite 1\<rparr>] \<noteq> []
   \<and> sorted_desc js [\<lparr>tsISO = ''2024-03-02T14:05:00,5+01:00'', amount = Finite 1\<rparr>]
   \<and> Number_isFinite (amount \<lparr>tsISO = ''2024-03-02T14:05:00,5+01:00'', amount = Finite 1\<rparr>)
   \<and> fromISO js ''2024-03-02T14:05:00,5+01:00'' = ValidDT 1709384700500
   \<and> trim ''2024-03-02T14:05:00,5+01:00'' = ''2024-03-02T14:05:00,5+01:00''
   \<and> parseCSV js (entriesToCSV js
        [\<lparr>tsISO = ''2024-03-02T14:05:00,5+01:00'', amount = Finite 1\<rparr>]) = Inr []
   \<and> parseCSV js (entriesToCSV js
        [\<lparr>tsISO = ''2024-03-02T14:05:00,5+01:00'', amount = Finite 1\<rparr>])
      \<noteq> Inr [\<lparr>tsISO = ''2024-03-02T14:05:00,5+01:00'', amount = Finite 1\<rparr>]"
  by code_simp

end
